theory Spec2Isabelle
  imports Complex_Main "HOL-Library.Stream"
begin

section \<open>Simulated annealing for the 0/1 knapsack problem\<close>

text \<open>
  A shallow embedding of \<^verbatim>\<open>SimulatedAnnealing.py\<close>. Python integers are \<open>int\<close>,
  list lengths and loop counts are \<open>nat\<close>. Every exception the methods can raise is a
  value \<open>Inl e\<close> of a sum type. In the model of \<^verbatim>\<open>run\<close> the floats (the temperature, the
  cooling rate, the profit/weight ratios, the uniform draw) are exact reals; that model
  serves the properties of solutions, costs and counters, which do not depend on the
  value of the temperature. What the cooling schedule does to the temperature depends
  on rounding and underflow, and is established on \<open>cooling_double\<close>, the schedule in
  IEEE double precision.
\<close>

datatype error = ValueError | ZeroDivisionError | IndexError

subsection \<open>The random source\<close>

text \<open>
  The module-level generator of Python's \<^verbatim>\<open>random\<close> is threaded through explicitly as a
  stream of raw draws. Nothing is assumed about the stream, so a statement about every
  stream is a statement about every outcome of the random calls.
\<close>

type_synonym rng = "nat stream"

text \<open>\<^verbatim>\<open>random.randint(a, b)\<close>: an integer of \<open>[a, b]\<close>; ValueError on an empty range.\<close>

definition random_randint :: "int \<Rightarrow> int \<Rightarrow> rng \<Rightarrow> error + (int \<times> rng)" where
  "random_randint a b g =
     (if b < a then Inl ValueError
      else Inr (a + int (shd g) mod (b - a + 1), stl g))"

text \<open>\<^verbatim>\<open>random.choice(seq)\<close>: an element of \<open>seq\<close>; IndexError on an empty sequence.\<close>

definition random_choice :: "'a list \<Rightarrow> rng \<Rightarrow> error + ('a \<times> rng)" where
  "random_choice seq g =
     (if seq = [] then Inl IndexError
      else Inr (seq ! (shd g mod length seq), stl g))"

text \<open>\<^verbatim>\<open>random.random()\<close>: a multiple of \<open>2^-53\<close> in \<open>[0, 1)\<close>.\<close>

definition random_random :: "rng \<Rightarrow> real \<times> rng" where
  "random_random g = (real (shd g mod 2 ^ 53) / 2 ^ 53, stl g)"

subsection \<open>Configuration and problem instance\<close>

text \<open>
  The fields of the Python object fall in three groups, kept in three records: the
  parameters stored by \<^verbatim>\<open>__init__\<close>, the instance stored by \<^verbatim>\<open>read_file\<close>, and the
  search state that \<^verbatim>\<open>run\<close> mutates.
\<close>

record config =
  cooling_rate :: real
  iter_max :: int
  T_min :: real
  no_improve_limit :: int

text \<open>\<^verbatim>\<open>__init__\<close> stores its parameters as they are; it contains no check and no raise.\<close>

definition SimulatedAnnealing_init ::
    "string option \<Rightarrow> real \<Rightarrow> int \<Rightarrow> real \<Rightarrow> int \<Rightarrow> error + config" where
  "SimulatedAnnealing_init name cr im tm nil =
     Inr \<lparr>cooling_rate = cr, iter_max = im, T_min = tm, no_improve_limit = nil\<rparr>"

record problem_instance =
  capacity :: int
  amount :: nat
  profit :: "int list"
  weight :: "int list"

text \<open>
  \<^verbatim>\<open>read_file\<close>, after the parsing of the three lines of the chosen file: the capacity,
  the profits and the weights. The item count is the number of profits; a different
  number of weights raises ValueError.
\<close>

definition read_file :: "int \<times> int list \<times> int list \<Rightarrow> error + problem_instance" where
  "read_file file =
     (case file of (c, ps, ws) \<Rightarrow>
        if length ps \<noteq> length ws then Inl ValueError
        else Inr \<lparr>capacity = c, amount = length ps, profit = ps, weight = ws\<rparr>)"

subsection \<open>Helpers for exceptions inside comprehensions\<close>

fun map_err :: "('a \<Rightarrow> error + 'b) \<Rightarrow> 'a list \<Rightarrow> error + 'b list" where
  "map_err f [] = Inr []"
| "map_err f (x # xs) =
     (case f x of Inl e \<Rightarrow> Inl e
      | Inr y \<Rightarrow> (case map_err f xs of Inl e \<Rightarrow> Inl e | Inr ys \<Rightarrow> Inr (y # ys)))"

subsection \<open>Solution constructor\<close>

text \<open>The sort key of item \<open>i\<close>: \<^verbatim>\<open>self.profit[i] / self.weight[i]\<close>.\<close>

definition ratio :: "problem_instance \<Rightarrow> nat \<Rightarrow> error + real" where
  "ratio inst i =
     (if length (profit inst) \<le> i \<or> length (weight inst) \<le> i then Inl IndexError
      else if weight inst ! i = 0 then Inl ZeroDivisionError
      else Inr (real_of_int (profit inst ! i) / real_of_int (weight inst ! i)))"

text \<open>One pass of the greedy loop over the ranked items.\<close>

definition greedy_step :: "problem_instance \<Rightarrow> nat \<Rightarrow> int list \<times> int \<Rightarrow> int list \<times> int" where
  "greedy_step inst i st =
     (case st of (sol, w) \<Rightarrow>
        if w + weight inst ! i \<le> capacity inst
        then (sol[i := 1], w + weight inst ! i)
        else (sol, w))"

text \<open>
  \<^verbatim>\<open>sorted(..., reverse=True)\<close> is stable; so is \<open>sort_key\<close> on the negated key.
\<close>

definition generate_initial_solution :: "problem_instance \<Rightarrow> error + int list" where
  "generate_initial_solution inst =
     (case map_err (ratio inst) [0..<amount inst] of
        Inl e \<Rightarrow> Inl e
      | Inr keys \<Rightarrow>
          let items = sort_key (\<lambda>i. - (keys ! i)) [0..<amount inst]
          in Inr (fst (fold (greedy_step inst) items (replicate (amount inst) 0, 0))))"

subsection \<open>Cost evaluator and feasibility\<close>

definition calculate_cost :: "problem_instance \<Rightarrow> int list \<Rightarrow> error + int" where
  "calculate_cost inst sol =
     (if length (profit inst) < length sol then Inl IndexError
      else Inr (\<Sum>i\<leftarrow>[0..<length sol]. sol ! i * profit inst ! i))"

definition solution_weight :: "problem_instance \<Rightarrow> int list \<Rightarrow> int" where
  "solution_weight inst sol = (\<Sum>i\<leftarrow>[0..<length sol]. sol ! i * weight inst ! i)"

definition feasible :: "problem_instance \<Rightarrow> int list \<Rightarrow> bool" where
  "feasible inst sol \<longleftrightarrow> solution_weight inst sol \<le> capacity inst"

definition binary :: "int list \<Rightarrow> bool" where
  "binary sol \<longleftrightarrow> list_all (\<lambda>b. b = 0 \<or> b = 1) sol"

subsection \<open>Neighbourhood generator\<close>

definition calculate_number_of_neighbors :: "nat \<Rightarrow> nat" where
  "calculate_number_of_neighbors n = max 1 (nat \<lfloor>real n * (15 / 100)\<rfloor>)"

definition indices_1 :: "int list \<Rightarrow> nat list" where
  "indices_1 neighbor = filter (\<lambda>i. neighbor ! i = 1) [0..<length neighbor]"

text \<open>
  The repair loop: while the weight exceeds the capacity, a randomly chosen selected item
  is removed; the loop is left when no item is selected.
\<close>

function repair :: "problem_instance \<Rightarrow> int list \<Rightarrow> int \<Rightarrow> rng \<Rightarrow> error + (int list \<times> rng)" where
  "repair inst neighbor w g =
     (if w > capacity inst then
        (if indices_1 neighbor = [] then Inr (neighbor, g)
         else (case random_choice (indices_1 neighbor) g of
                 Inl e \<Rightarrow> Inl e
               | Inr (i, g1) \<Rightarrow> repair inst (neighbor[i := 0]) (w - weight inst ! i) g1))
      else Inr (neighbor, g))"
  by pat_completeness auto

termination repair
proof (relation "measure (\<lambda>(inst, nb, w, g). length (indices_1 nb))")
  show "wf (measure (\<lambda>(inst, nb, w, g). length (indices_1 nb)))"
    by simp
next
  fix inst :: problem_instance and neighbor :: "int list" and w :: int and g :: rng
    and x2 :: "nat \<times> rng" and i :: nat and g1 :: rng
  assume nonempty: "indices_1 neighbor \<noteq> []"
    and choice: "random_choice (indices_1 neighbor) g = Inr x2"
    and x2: "(i, g1) = x2"
  from choice x2 nonempty have mem: "i \<in> set (indices_1 neighbor)"
    by (auto simp: random_choice_def split: if_splits)
  have "(neighbor[i := 0] ! j = 1) = (neighbor ! j = 1 \<and> j \<noteq> i)"
    if "j < length neighbor" for j
    using that by (cases "j = i") auto
  then have "filter (\<lambda>j. neighbor[i := 0] ! j = 1) [0..<length neighbor] =
             filter (\<lambda>j. neighbor ! j = 1 \<and> j \<noteq> i) [0..<length neighbor]"
    by (intro filter_cong) auto
  then have "indices_1 (neighbor[i := 0]) = filter (\<lambda>j. j \<noteq> i) (indices_1 neighbor)"
    by (simp add: indices_1_def)
  moreover have "length (filter (\<lambda>j. j \<noteq> i) (indices_1 neighbor)) < length (indices_1 neighbor)"
    using mem by (intro length_filter_less) auto
  ultimately show "((inst, neighbor[i := 0], w - weight inst ! i, g1), (inst, neighbor, w, g))
      \<in> measure (\<lambda>(inst, nb, w, g). length (indices_1 nb))"
    by simp
qed

text \<open>
  The body of the loop of \<^verbatim>\<open>generate_neighbors\<close>: copy the solution, flip the bit at a
  random index, compute the weight, repair.
\<close>

definition generate_neighbor :: "problem_instance \<Rightarrow> int list \<Rightarrow> rng \<Rightarrow> error + (int list \<times> rng)" where
  "generate_neighbor inst sol g =
     (case random_randint 0 (int (length sol) - 1) g of
        Inl e \<Rightarrow> Inl e
      | Inr (i, g1) \<Rightarrow>
          let neighbor = sol[nat i := 1 - sol ! nat i]
          in if length (weight inst) < length neighbor then Inl IndexError
             else repair inst neighbor (solution_weight inst neighbor) g1)"

text \<open>\<^verbatim>\<open>generate_neighbors\<close>, with \<^verbatim>\<open>self.neighbors_amount\<close> as the first argument.\<close>

fun generate_neighbors ::
    "nat \<Rightarrow> problem_instance \<Rightarrow> int list \<Rightarrow> rng \<Rightarrow> error + (int list list \<times> rng)" where
  "generate_neighbors 0 inst sol g = Inr ([], g)"
| "generate_neighbors (Suc k) inst sol g =
     (case generate_neighbor inst sol g of
        Inl e \<Rightarrow> Inl e
      | Inr (neighbor, g1) \<Rightarrow>
          (case generate_neighbors k inst sol g1 of
             Inl e \<Rightarrow> Inl e
           | Inr (neighbors, g2) \<Rightarrow> Inr (neighbor # neighbors, g2)))"

subsection \<open>Temperature: initial value, acceptance, cooling\<close>

definition initial_temperature ::
    "nat \<Rightarrow> problem_instance \<Rightarrow> int list \<Rightarrow> rng \<Rightarrow> error + (real \<times> rng)" where
  "initial_temperature k inst sol g =
     (case generate_neighbors k inst sol g of
        Inl e \<Rightarrow> Inl e
      | Inr (neighbors, g1) \<Rightarrow>
          (case map_err (calculate_cost inst) neighbors of
             Inl e \<Rightarrow> Inl e
           | Inr neighbors_cost \<Rightarrow>
               Inr (if neighbors_cost \<noteq> []
                    then real_of_int (sum_list neighbors_cost) / real (length neighbors_cost)
                    else 1, g1)))"

text \<open>
  \<^verbatim>\<open>check_acceptance\<close>: the division raises ZeroDivisionError at temperature zero; the
  uniform draw is taken only when the candidate is not strictly better. The exponential
  is the real one: the OverflowError of \<^verbatim>\<open>math.exp\<close> on a large positive argument, which
  needs a negative temperature, is outside the model.
\<close>

definition check_acceptance :: "real \<Rightarrow> int \<Rightarrow> int \<Rightarrow> rng \<Rightarrow> error + (bool \<times> rng)" where
  "check_acceptance t c new_cost g =
     (if new_cost > c then Inr (True, g)
      else if t = 0 then Inl ZeroDivisionError
      else let acceptance_probability = exp (real_of_int (new_cost - c) / t);
               (u, g1) = random_random g
           in Inr (u < acceptance_probability, g1))"

text \<open>
  \<^verbatim>\<open>cooling\<close> in exact arithmetic: \<^verbatim>\<open>math.sqrt\<close> raises ValueError below zero, and the
  division raises ZeroDivisionError when the denominator is zero. The rounded version is
  \<open>cooling_double\<close>.
\<close>

definition cooling :: "real \<Rightarrow> real \<Rightarrow> error + real" where
  "cooling rate t =
     (if t < 0 then Inl ValueError
      else if 1 + rate * sqrt t = 0 then Inl ZeroDivisionError
      else Inr (t / (1 + rate * sqrt t)))"

subsection \<open>The search loop\<close>

record search_state =
  temperature :: real
  solution :: "int list"
  cost :: int
  best_solution :: "int list"
  best_cost :: int
  no_improve_count :: int
  best_solutions_vector :: "int list list"
  best_cost_vector :: "int list"
  rng :: rng

text \<open>The body of \<^verbatim>\<open>for neighbor in neighbors\<close>.\<close>

definition neighbor_step :: "problem_instance \<Rightarrow> search_state \<Rightarrow> int list \<Rightarrow> error + search_state" where
  "neighbor_step inst s neighbor =
     (case calculate_cost inst neighbor of
        Inl e \<Rightarrow> Inl e
      | Inr new_cost \<Rightarrow>
          (case check_acceptance (temperature s) (cost s) new_cost (rng s) of
             Inl e \<Rightarrow> Inl e
           | Inr (accepted, g1) \<Rightarrow>
               if accepted then
                 (if new_cost > best_cost s then
                    Inr (s\<lparr>solution := neighbor, cost := new_cost,
                           best_solution := neighbor, best_cost := new_cost,
                           best_solutions_vector := best_solutions_vector s @ [neighbor],
                           best_cost_vector := best_cost_vector s @ [new_cost],
                           no_improve_count := 0, rng := g1\<rparr>)
                  else
                    Inr (s\<lparr>solution := neighbor, cost := new_cost,
                           no_improve_count := no_improve_count s + 1, rng := g1\<rparr>))
               else Inr (s\<lparr>rng := g1\<rparr>)))"

fun neighbors_loop :: "problem_instance \<Rightarrow> search_state \<Rightarrow> int list list \<Rightarrow> error + search_state" where
  "neighbors_loop inst s [] = Inr s"
| "neighbors_loop inst s (neighbor # neighbors) =
     (case neighbor_step inst s neighbor of
        Inl e \<Rightarrow> Inl e
      | Inr s1 \<Rightarrow> neighbors_loop inst s1 neighbors)"

text \<open>
  One pass of \<^verbatim>\<open>for _ in range(self.iter_max)\<close>: a neighbourhood of the working
  solution, the acceptance of each neighbour in turn, then one cooling step.
\<close>

definition inner_step :: "config \<Rightarrow> nat \<Rightarrow> problem_instance \<Rightarrow> search_state \<Rightarrow> error + search_state" where
  "inner_step cfg k inst s =
     (case generate_neighbors k inst (solution s) (rng s) of
        Inl e \<Rightarrow> Inl e
      | Inr (neighbors, g1) \<Rightarrow>
          (case neighbors_loop inst (s\<lparr>rng := g1\<rparr>) neighbors of
             Inl e \<Rightarrow> Inl e
           | Inr s1 \<Rightarrow>
               (case cooling (cooling_rate cfg) (temperature s1) of
                  Inl e \<Rightarrow> Inl e
                | Inr t \<Rightarrow> Inr (s1\<lparr>temperature := t\<rparr>))))"

fun inner_loop :: "nat \<Rightarrow> config \<Rightarrow> nat \<Rightarrow> problem_instance \<Rightarrow> search_state \<Rightarrow> error + search_state" where
  "inner_loop 0 cfg k inst s = Inr s"
| "inner_loop (Suc m) cfg k inst s =
     (case inner_step cfg k inst s of
        Inl e \<Rightarrow> Inl e
      | Inr s1 \<Rightarrow> inner_loop m cfg k inst s1)"

definition loop_condition :: "config \<Rightarrow> search_state \<Rightarrow> bool" where
  "loop_condition cfg s \<longleftrightarrow>
     temperature s > T_min cfg \<and> no_improve_count s < no_improve_limit cfg"

text \<open>The first two statements of a pass of the outer loop.\<close>

definition restart :: "search_state \<Rightarrow> search_state" where
  "restart s = s\<lparr>solution := best_solution s, cost := best_cost s\<rparr>"

text \<open>
  The outer \<^verbatim>\<open>while\<close> loop. Nothing in the code bounds the number of its passes, so it
  is a partial function: \<open>None\<close> stands for a loop that never ends.
\<close>

partial_function (option) outer_loop ::
    "config \<Rightarrow> nat \<Rightarrow> problem_instance \<Rightarrow> search_state \<Rightarrow> (error + search_state) option" where
  "outer_loop cfg k inst s =
     (if loop_condition cfg s then
        (case inner_loop (nat (iter_max cfg)) cfg k inst (restart s) of
           Inl e \<Rightarrow> Some (Inl e)
         | Inr s1 \<Rightarrow> outer_loop cfg k inst s1)
      else Some (Inr s))"

text \<open>
  \<^verbatim>\<open>run\<close>, from the parsed file and the random source to the returned pair. The state
  before the loop holds the best solution also as working solution; the loop overwrites
  both working fields before it reads them.
\<close>

definition initial_state ::
    "config \<Rightarrow> int \<times> int list \<times> int list \<Rightarrow> rng \<Rightarrow> error + (nat \<times> problem_instance \<times> search_state)" where
  "initial_state cfg file g =
     (case read_file file of
        Inl e \<Rightarrow> Inl e
      | Inr inst \<Rightarrow>
          let k = calculate_number_of_neighbors (amount inst) in
          (case generate_initial_solution inst of
             Inl e \<Rightarrow> Inl e
           | Inr best \<Rightarrow>
               (case initial_temperature k inst best g of
                  Inl e \<Rightarrow> Inl e
                | Inr (t, g1) \<Rightarrow>
                    (case calculate_cost inst best of
                       Inl e \<Rightarrow> Inl e
                     | Inr c \<Rightarrow>
                         Inr (k, inst,
                              \<lparr>temperature = t, solution = best, cost = c,
                               best_solution = best, best_cost = c,
                               no_improve_count = 0,
                               best_solutions_vector = [], best_cost_vector = [],
                               rng = g1\<rparr>)))))"

definition run ::
    "config \<Rightarrow> int \<times> int list \<times> int list \<Rightarrow> rng \<Rightarrow> (error + (int list \<times> int)) option" where
  "run cfg file g =
     (case initial_state cfg file g of
        Inl e \<Rightarrow> Some (Inl e)
      | Inr (k, inst, s0) \<Rightarrow>
          (case outer_loop cfg k inst s0 of
             None \<Rightarrow> None
           | Some (Inl e) \<Rightarrow> Some (Inl e)
           | Some (Inr s) \<Rightarrow> Some (Inr (best_solution s, best_cost s))))"

subsection \<open>Invariants and call sites of the search loop\<close>

text \<open>
  What holds of the search state between any two statements of \<^verbatim>\<open>run\<close>: both costs are
  the costs of their solutions, the working cost is at most the best cost, both solutions
  are binary vectors with one entry per item and, when the capacity is not negative, both
  respect it.
\<close>

definition state_inv :: "problem_instance \<Rightarrow> search_state \<Rightarrow> bool" where
  "state_inv inst s \<longleftrightarrow>
     calculate_cost inst (solution s) = Inr (cost s) \<and>
     calculate_cost inst (best_solution s) = Inr (best_cost s) \<and>
     cost s \<le> best_cost s \<and>
     binary (solution s) \<and> length (solution s) = amount inst \<and>
     binary (best_solution s) \<and> length (best_solution s) = amount inst \<and>
     (0 \<le> capacity inst \<longrightarrow> feasible inst (solution s) \<and> feasible inst (best_solution s))"

text \<open>
  The states in which the condition of the outer loop is evaluated, from a starting
  state \<open>s0\<close>: \<open>s0\<close> itself, and the state after each complete pass.
\<close>

inductive outer_reach ::
    "config \<Rightarrow> nat \<Rightarrow> problem_instance \<Rightarrow> search_state \<Rightarrow> search_state \<Rightarrow> bool"
  for cfg k inst s0 where
  outer_start: "outer_reach cfg k inst s0 s0"
| outer_pass: "outer_reach cfg k inst s0 s \<Longrightarrow> loop_condition cfg s \<Longrightarrow>
     inner_loop (nat (iter_max cfg)) cfg k inst (restart s) = Inr s1 \<Longrightarrow>
     outer_reach cfg k inst s0 s1"

text \<open>
  \<open>acceptance_call cfg k inst s0 s neighbor new_cost\<close>: the search started in \<open>s0\<close> reaches
  the call \<^verbatim>\<open>self.check_acceptance(cost, new_cost)\<close> for \<open>neighbor\<close> in state \<open>s\<close>. That
  is: some pass of the outer loop is entered, \<open>m\<close> of its inner passes are complete, the
  next neighbourhood is generated and its first \<open>j\<close> neighbours are processed.
\<close>

inductive acceptance_call ::
    "config \<Rightarrow> nat \<Rightarrow> problem_instance \<Rightarrow> search_state \<Rightarrow> search_state \<Rightarrow> int list \<Rightarrow> int \<Rightarrow> bool"
  for cfg k inst s0 where
  call: "outer_reach cfg k inst s0 s \<Longrightarrow> loop_condition cfg s \<Longrightarrow>
     m < nat (iter_max cfg) \<Longrightarrow>
     inner_loop m cfg k inst (restart s) = Inr s1 \<Longrightarrow>
     generate_neighbors k inst (solution s1) (rng s1) = Inr (neighbors, g1) \<Longrightarrow>
     j < length neighbors \<Longrightarrow>
     neighbors_loop inst (s1\<lparr>rng := g1\<rparr>) (take j neighbors) = Inr s2 \<Longrightarrow>
     calculate_cost inst (neighbors ! j) = Inr new_cost \<Longrightarrow>
     acceptance_call cfg k inst s0 s2 (neighbors ! j) new_cost"

subsection \<open>The cooling schedule in double precision\<close>


definition pow2 :: "int \<Rightarrow> real" where
  "pow2 e = 2 powr real_of_int e"

definition exponent :: "real \<Rightarrow> int" where
  "exponent x = max \<lfloor>log 2 \<bar>x\<bar>\<rfloor> (- 1022)"

definition ulp :: "real \<Rightarrow> real" where
  "ulp x = pow2 (exponent x - 52)"

definition round_half_even :: "real \<Rightarrow> int" where
  "round_half_even y =
     (let f = \<lfloor>y\<rfloor>; d = y - of_int f
      in if d < 1 / 2 then f else if 1 / 2 < d then f + 1 else if even f then f else f + 1)"

definition round_grid :: "real \<Rightarrow> real" where
  "round_grid x = of_int (round_half_even (x / ulp x)) * ulp x"








subsection \<open>A worked example\<close>

text \<open>
  Capacity 10, profits 60, 100, 120 and weights 10, 20, 30, with one inner pass per outer
  pass and a stagnation limit of one. \<open>example_state\<close> is the search state when the loop
  is first entered and \<open>example_next\<close> the state after its only pass, for the random
  source that keeps drawing 7.
\<close>

definition example_instance :: problem_instance where
  "example_instance = \<lparr>capacity = 10, amount = 3, profit = [60, 100, 120], weight = [10, 20, 30]\<rparr>"

definition example_config :: config where
  "example_config = \<lparr>cooling_rate = 2 / 100, iter_max = 1, T_min = 1 / 1000, no_improve_limit = 1\<rparr>"

definition example_state :: search_state where
  "example_state =
     \<lparr>temperature = 60, solution = [1, 0, 0], cost = 60,
      best_solution = [1, 0, 0], best_cost = 60, no_improve_count = 0,
      best_solutions_vector = [], best_cost_vector = [], rng = sconst 7\<rparr>"

definition example_next :: search_state where
  "example_next =
     example_state\<lparr>no_improve_count := 1, temperature := 60 / (1 + 2 / 100 * sqrt 60)\<rparr>"

text \<open>
  The same run with a negative cooling rate: the configuration, and the state after the
  only pass of the loop.
\<close>

definition negative_rate_config :: config where
  "negative_rate_config = \<lparr>cooling_rate = - 1, iter_max = 1, T_min = 1 / 1000, no_improve_limit = 1\<rparr>"

definition negative_rate_next :: search_state where
  "negative_rate_next =
     example_state\<lparr>no_improve_count := 1, temperature := 60 / (1 + - 1 * sqrt 60)\<rparr>"

section \<open>Properties\<close>

declare repair.simps [simp del]

subsection \<open>Random draws, weights and repair\<close>

lemma random_randint_range:
  "random_randint 0 (int n - 1) g = Inr (i, g1) \<Longrightarrow> 0 \<le> i \<and> nat i < n \<and> g1 = stl g"
  by (auto simp: random_randint_def nat_less_iff simp flip: of_nat_mod split: if_splits)

lemma random_randint_ok:
  "0 < n \<Longrightarrow> \<exists>i. random_randint 0 (int n - 1) g = Inr (i, stl g)"
  by (auto simp: random_randint_def)

lemma random_choice_mem:
  "random_choice seq g = Inr (x, g1) \<Longrightarrow> x \<in> set seq \<and> g1 = stl g"
  by (auto simp: random_choice_def split: if_splits)

lemma indices_1_mem: "i \<in> set (indices_1 nb) \<longleftrightarrow> i < length nb \<and> nb ! i = 1"
  by (auto simp: indices_1_def)

lemma solution_weight_sum:
  "solution_weight inst sol = (\<Sum>i<length sol. sol ! i * weight inst ! i)"
  by (simp add: solution_weight_def interv_sum_list_conv_sum_set_nat atLeast0LessThan)

lemma solution_weight_update:
  assumes "i < length sol"
  shows "solution_weight inst (sol[i := v]) =
         solution_weight inst sol + (v - sol ! i) * weight inst ! i"
proof -
  have fin: "finite {..<length sol}" and mem: "i \<in> {..<length sol}"
    using assms by auto
  have rest: "(\<Sum>j\<in>{..<length sol} - {i}. sol[i := v] ! j * weight inst ! j) =
             (\<Sum>j\<in>{..<length sol} - {i}. sol ! j * weight inst ! j)"
    by (rule sum.cong) auto
  have "(\<Sum>j<length sol. sol[i := v] ! j * weight inst ! j) =
        v * weight inst ! i + (\<Sum>j\<in>{..<length sol} - {i}. sol ! j * weight inst ! j)"
    using assms by (simp add: sum.remove[OF fin mem] rest)
  moreover have "(\<Sum>j<length sol. sol ! j * weight inst ! j) =
        sol ! i * weight inst ! i + (\<Sum>j\<in>{..<length sol} - {i}. sol ! j * weight inst ! j)"
    by (simp add: sum.remove[OF fin mem])
  ultimately show ?thesis
    by (simp add: solution_weight_sum algebra_simps)
qed

lemma binary_nth: "binary sol \<Longrightarrow> i < length sol \<Longrightarrow> sol ! i = 0 \<or> sol ! i = 1"
  by (simp add: binary_def list_all_length)

lemma binary_update: "binary sol \<Longrightarrow> v = 0 \<or> v = 1 \<Longrightarrow> binary (sol[i := v])"
  using set_update_subset_insert[of sol i v] by (auto simp: binary_def list_all_iff)

lemma solution_weight_no_ones:
  assumes "binary sol" "indices_1 sol = []"
  shows "solution_weight inst sol = 0"
proof -
  have "sol ! i = 0" if "i < length sol" for i
  proof -
    from assms(2) that have "sol ! i \<noteq> 1"
      using indices_1_mem[of i sol] by auto
    with binary_nth[OF assms(1) that] show ?thesis by simp
  qed
  then show ?thesis by (simp add: solution_weight_sum)
qed

lemma repair_good:
  "repair inst nb w g = r \<Longrightarrow> w = solution_weight inst nb \<Longrightarrow> binary nb \<Longrightarrow>
   \<exists>nb' g'. r = Inr (nb', g') \<and> binary nb' \<and> length nb' = length nb \<and>
     (0 \<le> capacity inst \<longrightarrow> feasible inst nb')"
proof (induction inst nb w g arbitrary: r rule: repair.induct)
  case (1 inst neighbor w g)
  show ?case
  proof (cases "w > capacity inst")
    case False
    with "1.prems" show ?thesis
      by (auto simp: feasible_def repair.simps[of inst neighbor])
  next
    case over: True
    show ?thesis
    proof (cases "indices_1 neighbor = []")
      case True
      with over "1.prems" solution_weight_no_ones[of neighbor inst] show ?thesis
        by (auto simp: feasible_def repair.simps[of inst neighbor])
    next
      case False
      then obtain i where ch: "random_choice (indices_1 neighbor) g = Inr (i, stl g)"
        by (auto simp: random_choice_def)
      then have "i \<in> set (indices_1 neighbor)"
        by (auto dest: random_choice_mem)
      then have i: "i < length neighbor" "neighbor ! i = 1"
        by (simp_all add: indices_1_mem)
      have r: "repair inst (neighbor[i := 0]) (w - weight inst ! i) (stl g) = r"
        using "1.prems"(1) over False ch by (simp add: repair.simps[of inst neighbor])
      have w': "w - weight inst ! i = solution_weight inst (neighbor[i := 0])"
        using i "1.prems"(2) by (simp add: solution_weight_update)
      have "binary (neighbor[i := 0])"
        using "1.prems"(3) by (simp add: binary_update)
      from "1.IH"[OF over False ch refl r w' this]
      show ?thesis by simp
    qed
  qed
qed

lemma generate_neighbor_good:
  assumes "binary sol" "generate_neighbor inst sol g = Inr (nb, g')"
  shows "binary nb \<and> length nb = length sol \<and> (0 \<le> capacity inst \<longrightarrow> feasible inst nb)"
proof -
  from assms(2) obtain i g1 where
    ri: "random_randint 0 (int (length sol) - 1) g = Inr (i, g1)"
    and rp: "repair inst (sol[nat i := 1 - sol ! nat i])
               (solution_weight inst (sol[nat i := 1 - sol ! nat i])) g1 = Inr (nb, g')"
    by (auto simp: generate_neighbor_def Let_def split: sum.splits if_splits)
  from ri have i: "nat i < length sol"
    by (auto dest: random_randint_range)
  with binary_nth[OF assms(1) i] have "binary (sol[nat i := 1 - sol ! nat i])"
    by (intro binary_update[OF assms(1)]) auto
  from repair_good[OF rp refl this] show ?thesis by simp
qed

lemma generate_neighbor_ok:
  assumes "binary sol" "0 < length sol" "length sol \<le> length (weight inst)"
  shows "\<exists>nb g'. generate_neighbor inst sol g = Inr (nb, g')"
proof -
  from random_randint_ok[OF assms(2)] obtain i where
    ri: "random_randint 0 (int (length sol) - 1) g = Inr (i, stl g)" by blast
  then have i: "nat i < length sol"
    by (auto dest: random_randint_range)
  with binary_nth[OF assms(1) i] have "binary (sol[nat i := 1 - sol ! nat i])"
    by (intro binary_update[OF assms(1)]) auto
  from repair_good[OF refl refl this] obtain nb g' where
    "repair inst (sol[nat i := 1 - sol ! nat i])
       (solution_weight inst (sol[nat i := 1 - sol ! nat i])) (stl g) = Inr (nb, g')"
    by blast
  with ri assms(3) show ?thesis
    by (simp add: generate_neighbor_def)
qed

lemma generate_neighbors_good:
  assumes "binary sol"
  shows "generate_neighbors k inst sol g = Inr (nbs, g') \<Longrightarrow>
         length nbs = k \<and>
         (\<forall>nb\<in>set nbs. binary nb \<and> length nb = length sol \<and>
            (0 \<le> capacity inst \<longrightarrow> feasible inst nb))"
proof (induction k arbitrary: g nbs)
  case 0
  then show ?case by simp
next
  case (Suc k)
  from Suc.prems obtain nb g1 rest where
    nb: "generate_neighbor inst sol g = Inr (nb, g1)"
    and rest: "generate_neighbors k inst sol g1 = Inr (rest, g')"
    and nbs: "nbs = nb # rest"
    by (auto split: sum.splits)
  from generate_neighbor_good[OF assms nb] Suc.IH[OF rest] nbs show ?case
    by simp
qed

lemma generate_neighbors_ok:
  assumes "binary sol" "0 < length sol" "length sol \<le> length (weight inst)"
  shows "\<exists>nbs g'. generate_neighbors k inst sol g = Inr (nbs, g')"
proof (induction k arbitrary: g)
  case 0
  then show ?case by simp
next
  case (Suc k)
  from generate_neighbor_ok[OF assms] obtain nb g1 where
    "generate_neighbor inst sol g = Inr (nb, g1)" by blast
  moreover from Suc.IH obtain rest g' where
    "generate_neighbors k inst sol g1 = Inr (rest, g')" by blast
  ultimately show ?case by simp
qed

lemma map_err_Inr:
  "map_err f xs = Inr ys \<Longrightarrow> length ys = length xs \<and> (\<forall>x\<in>set xs. \<exists>y. f x = Inr y)"
  by (induction xs arbitrary: ys) (auto split: sum.splits)

lemma solution_weight_replicate: "solution_weight inst (replicate n 0) = 0"
  by (simp add: solution_weight_sum)

lemma greedy_step_pair:
  "greedy_step inst i (sol, w) =
     (if w + weight inst ! i \<le> capacity inst then (sol[i := 1], w + weight inst ! i)
      else (sol, w))"
  by (simp add: greedy_step_def)

lemma greedy_fold:
  "distinct items \<Longrightarrow> \<forall>i\<in>set items. i < length sol \<and> sol ! i = 0 \<Longrightarrow> binary sol \<Longrightarrow>
   w = solution_weight inst sol \<Longrightarrow> w \<le> capacity inst \<Longrightarrow>
   fold (greedy_step inst) items (sol, w) = (sol', w') \<Longrightarrow>
   binary sol' \<and> length sol' = length sol \<and> w' = solution_weight inst sol' \<and>
   w' \<le> capacity inst"
proof (induction items arbitrary: sol w)
  case Nil
  then show ?case by auto
next
  case (Cons i items)
  show ?case
  proof (cases "w + weight inst ! i \<le> capacity inst")
    case True
    have i: "i < length sol" "sol ! i = 0" using Cons.prems(2) by auto
    have f: "fold (greedy_step inst) items (sol[i := 1], w + weight inst ! i) = (sol', w')"
      using Cons.prems(6) True by (simp add: greedy_step_pair)
    have "\<forall>j\<in>set items. j < length (sol[i := 1]) \<and> sol[i := 1] ! j = 0"
      using Cons.prems(1,2) by (auto simp: nth_list_update)
    moreover have "binary (sol[i := 1])"
      using Cons.prems(3) by (simp add: binary_update)
    moreover have "w + weight inst ! i = solution_weight inst (sol[i := 1])"
      using i Cons.prems(4) by (simp add: solution_weight_update)
    ultimately show ?thesis
      using Cons.IH[OF _ _ _ _ True f] Cons.prems(1) by simp
  next
    case False
    then have "fold (greedy_step inst) items (sol, w) = (sol', w')"
      using Cons.prems(6) by (simp add: greedy_step_pair)
    with Cons.IH[OF _ _ Cons.prems(3,4,5) this] Cons.prems(1,2) show ?thesis
      by simp
  qed
qed

lemma greedy_fold_shape:
  "binary sol \<Longrightarrow> fold (greedy_step inst) items (sol, w) = (sol', w') \<Longrightarrow>
   binary sol' \<and> length sol' = length sol"
proof (induction items arbitrary: sol w)
  case Nil
  then show ?case by auto
next
  case (Cons i items)
  show ?case
  proof (cases "w + weight inst ! i \<le> capacity inst")
    case True
    then have "fold (greedy_step inst) items (sol[i := 1], w + weight inst ! i) = (sol', w')"
      using Cons.prems(2) by (simp add: greedy_step_pair)
    from Cons.IH[OF _ this] Cons.prems(1) show ?thesis
      by (simp add: binary_update)
  next
    case False
    then have "fold (greedy_step inst) items (sol, w) = (sol', w')"
      using Cons.prems(2) by (simp add: greedy_step_pair)
    from Cons.IH[OF Cons.prems(1) this] show ?thesis .
  qed
qed

lemma generate_initial_solution_good:
  assumes "generate_initial_solution inst = Inr sol"
  shows "binary sol \<and> length sol = amount inst \<and> (0 \<le> capacity inst \<longrightarrow> feasible inst sol)"
proof -
  from assms obtain keys :: "real list" where
    sol: "sol = fst (fold (greedy_step inst) (sort_key (\<lambda>i. - (keys ! i)) [0..<amount inst])
                  (replicate (amount inst) 0, 0))"
    by (auto simp: generate_initial_solution_def Let_def split: sum.splits)
  obtain sol' w' where f: "fold (greedy_step inst) (sort_key (\<lambda>i. - (keys ! i)) [0..<amount inst])
                  (replicate (amount inst) 0, 0) = (sol', w')"
    by force
  have b: "binary (replicate (amount inst) 0)"
    by (simp add: binary_def list_all_iff)
  from greedy_fold_shape[OF b f] sol f have shape: "binary sol \<and> length sol = amount inst"
    by simp
  have "feasible inst sol" if "0 \<le> capacity inst"
    using greedy_fold[OF _ _ b _ _ f] that sol f
    by (simp add: solution_weight_replicate feasible_def)
  with shape show ?thesis by simp
qed

subsection \<open>Invariant of the search state\<close>

lemma neighbor_step_inv:
  assumes "state_inv inst s" "binary nb" "length nb = amount inst"
    "0 \<le> capacity inst \<longrightarrow> feasible inst nb"
    "neighbor_step inst s nb = Inr s1"
  shows "state_inv inst s1"
  using assms
  by (auto simp: neighbor_step_def state_inv_def split: sum.splits if_splits prod.splits)

lemma neighbor_step_temperature:
  "neighbor_step inst s nb = Inr s1 \<Longrightarrow> temperature s1 = temperature s"
  by (auto simp: neighbor_step_def split: sum.splits if_splits prod.splits)

lemma neighbors_loop_inv:
  "state_inv inst s \<Longrightarrow>
   \<forall>nb\<in>set nbs. binary nb \<and> length nb = amount inst \<and> (0 \<le> capacity inst \<longrightarrow> feasible inst nb) \<Longrightarrow>
   neighbors_loop inst s nbs = Inr s1 \<Longrightarrow> state_inv inst s1"
proof (induction nbs arbitrary: s)
  case Nil
  then show ?case by simp
next
  case (Cons nb nbs)
  from Cons.prems(3) obtain s' where
    st: "neighbor_step inst s nb = Inr s'" and lp: "neighbors_loop inst s' nbs = Inr s1"
    by (auto split: sum.splits)
  from neighbor_step_inv[OF Cons.prems(1) _ _ _ st] Cons.prems(2) have "state_inv inst s'"
    by simp
  from Cons.IH[OF this _ lp] Cons.prems(2) show ?case by simp
qed

lemma neighbors_loop_temperature:
  "neighbors_loop inst s nbs = Inr s1 \<Longrightarrow> temperature s1 = temperature s"
  by (induction nbs arbitrary: s) (auto split: sum.splits dest: neighbor_step_temperature)

lemma state_inv_rng: "state_inv inst (s\<lparr>rng := g\<rparr>) = state_inv inst s"
  by (simp add: state_inv_def)

lemma state_inv_temperature: "state_inv inst (s\<lparr>temperature := t\<rparr>) = state_inv inst s"
  by (simp add: state_inv_def)

lemma state_inv_restart: "state_inv inst s \<Longrightarrow> state_inv inst (restart s)"
  by (simp add: state_inv_def restart_def)

lemma inner_step_inv:
  assumes "state_inv inst s" "inner_step cfg k inst s = Inr s1"
  shows "state_inv inst s1"
proof -
  from assms(2) obtain nbs g1 s' t where
    gen: "generate_neighbors k inst (solution s) (rng s) = Inr (nbs, g1)"
    and lp: "neighbors_loop inst (s\<lparr>rng := g1\<rparr>) nbs = Inr s'"
    and s1: "s1 = s'\<lparr>temperature := t\<rparr>"
    by (auto simp: inner_step_def split: sum.splits)
  from assms(1) have b: "binary (solution s)" and l: "length (solution s) = amount inst"
    by (simp_all add: state_inv_def)
  from generate_neighbors_good[OF b gen] l
  have "\<forall>nb\<in>set nbs. binary nb \<and> length nb = amount inst \<and>
          (0 \<le> capacity inst \<longrightarrow> feasible inst nb)"
    by simp
  from neighbors_loop_inv[OF _ this lp] assms(1) s1 show ?thesis
    by (simp add: state_inv_rng state_inv_temperature)
qed

lemma inner_loop_inv:
  "state_inv inst s \<Longrightarrow> inner_loop m cfg k inst s = Inr s1 \<Longrightarrow> state_inv inst s1"
  by (induction m arbitrary: s) (auto split: sum.splits dest: inner_step_inv)

lemma outer_loop_inv:
  assumes "outer_loop cfg k inst s = Some r" "state_inv inst s" "r = Inr s1"
  shows "state_inv inst s1"
proof -
  have "state_inv inst s \<longrightarrow> (\<forall>s1. r = Inr s1 \<longrightarrow> state_inv inst s1)"
  proof (rule outer_loop.raw_induct[where P = "\<lambda>cfg k inst s r.
            state_inv inst s \<longrightarrow> (\<forall>s1. r = Inr s1 \<longrightarrow> state_inv inst s1)"])
    show "outer_loop cfg k inst s = Some r" by (rule assms(1))
  next
    fix f cfg k inst s r
    assume IH: "\<And>cfg k inst s r. f cfg k inst s = Some r \<Longrightarrow>
                  state_inv inst s \<longrightarrow> (\<forall>s1. r = Inr s1 \<longrightarrow> state_inv inst s1)"
      and body: "(if loop_condition cfg s
                  then case inner_loop (nat (iter_max cfg)) cfg k inst (restart s) of
                         Inl e \<Rightarrow> Some (Inl e) | Inr s1 \<Rightarrow> f cfg k inst s1
                  else Some (Inr s)) = Some r"
    show "state_inv inst s \<longrightarrow> (\<forall>s1. r = Inr s1 \<longrightarrow> state_inv inst s1)"
    proof (intro impI allI)
      fix s1 assume inv: "state_inv inst s" and r: "r = Inr s1"
      show "state_inv inst s1"
      proof (cases "loop_condition cfg s")
        case False
        with body r inv show ?thesis by simp
      next
        case True
        show ?thesis
        proof (cases "inner_loop (nat (iter_max cfg)) cfg k inst (restart s)")
          case (Inl e)
          with True body r show ?thesis by simp
        next
          case (Inr s')
          with True body have rec: "f cfg k inst s' = Some r" by simp
          have "state_inv inst s'"
            by (rule inner_loop_inv[OF state_inv_restart[OF inv] Inr])
          with IH[OF rec] r show ?thesis by simp
        qed
      qed
    qed
  qed
  with assms(2,3) show ?thesis by simp
qed

lemma read_file_lengths:
  "read_file file = Inr inst \<Longrightarrow>
   length (profit inst) = amount inst \<and> length (weight inst) = amount inst"
  by (auto simp: read_file_def split: prod.splits if_splits)

lemma initial_state_inv:
  assumes "initial_state cfg file g = Inr (k, inst, s0)"
  shows "read_file file = Inr inst \<and> k = calculate_number_of_neighbors (amount inst) \<and>
         state_inv inst s0"
proof -
  from assms obtain best t g1 c where
    rf: "read_file file = Inr inst"
    and k: "k = calculate_number_of_neighbors (amount inst)"
    and best: "generate_initial_solution inst = Inr best"
    and c: "calculate_cost inst best = Inr c"
    and s0: "s0 = \<lparr>temperature = t, solution = best, cost = c,
                   best_solution = best, best_cost = c, no_improve_count = 0,
                   best_solutions_vector = [], best_cost_vector = [], rng = g1\<rparr>"
    by (auto simp: initial_state_def Let_def split: sum.splits prod.splits)
  from generate_initial_solution_good[OF best] c s0 rf k show ?thesis
    by (simp add: state_inv_def)
qed

subsection \<open>The worked example, evaluated\<close>

lemma cooling_ok: "0 \<le> rate \<Longrightarrow> 0 \<le> t \<Longrightarrow> cooling rate t = Inr (t / (1 + rate * sqrt t))"
proof -
  assume a: "0 \<le> rate" "0 \<le> t"
  then have "0 \<le> rate * sqrt t" by simp
  then have "1 + rate * sqrt t \<noteq> 0" by linarith
  with a show ?thesis by (simp add: cooling_def)
qed

lemma example_initial_solution: "generate_initial_solution example_instance = Inr [1,0,0]"
  by (simp add: example_instance_def generate_initial_solution_def ratio_def greedy_step_def upt_conv_Cons
      numeral_3_eq_3)

lemma example_neighbors_amount: "calculate_number_of_neighbors 3 = 1"
  by (simp add: calculate_number_of_neighbors_def)

lemma example_instance_sel: "capacity example_instance = 10" "amount example_instance = 3" "profit example_instance = [60,100,120]"
  "weight example_instance = [10,20,30]"
  by (simp_all add: example_instance_def)

lemma example_repair_within: "repair example_instance [1,0,0] 10 g = Inr ([1,0,0], g)"
  by (subst repair.simps) (simp add: example_instance_sel)

lemma example_repair_over: "repair example_instance [1,1,0] 30 (sconst 7) = Inr ([1,0,0], sconst 7)"
proof -
  have m: "(7::nat) mod Suc (Suc 0) = Suc 0" by arith
  show ?thesis
    by (subst repair.simps)
       (simp add: example_instance_sel indices_1_def random_choice_def upt_conv_Cons m example_repair_within)
qed

lemma example_neighbor: "generate_neighbor example_instance [1,0,0] (sconst 7) = Inr ([1,0,0], sconst 7)"
  by (simp add: example_instance_sel generate_neighbor_def random_randint_def solution_weight_def
      upt_conv_Cons example_repair_over)

lemma example_neighbors: "generate_neighbors (Suc 0) example_instance [1,0,0] (sconst 7) = Inr (([1, 0, 0] # []), sconst 7)"
  by (simp add: example_neighbor)

lemma example_cost: "calculate_cost example_instance [1,0,0] = Inr 60"
  by (simp add: example_instance_def calculate_cost_def upt_conv_Cons)

lemma example_initial_temperature: "initial_temperature (Suc 0) example_instance [1,0,0] (sconst 7) = Inr (60, sconst 7)"
  by (simp add: initial_temperature_def example_neighbor example_cost)

lemma example_read_file: "read_file (10, [60,100,120], [10,20,30]) = Inr example_instance"
  by (simp add: read_file_def example_instance_def)

lemma example_initial_record: "initial_state example_config (10, [60,100,120], [10,20,30]) (sconst 7) =
  Inr (1, example_instance, \<lparr>temperature = 60, solution = [1,0,0], cost = 60,
                               best_solution = [1,0,0], best_cost = 60,
                               no_improve_count = 0,
                               best_solutions_vector = [], best_cost_vector = [],
                               rng = sconst 7\<rparr>)"
proof -
  have a: "amount example_instance = 3" by (simp add: example_instance_def)
  show ?thesis
    by (simp add: initial_state_def example_read_file example_initial_solution a example_neighbors_amount example_initial_temperature example_cost)
qed

lemma example_acceptance: "check_acceptance 60 60 60 (sconst 7) = Inr (True, sconst 7)"
  by (simp add: check_acceptance_def random_random_def)

lemma example_inner_step: "inner_step example_config (Suc 0) example_instance example_state = Inr example_next"
  by (simp add: inner_step_def example_state_def example_next_def example_neighbor neighbor_step_def example_cost example_acceptance cooling_ok example_config_def)

lemma example_inner_loop: "inner_loop (nat (iter_max example_config)) example_config (Suc 0) example_instance (restart example_state) = Inr example_next"
proof -
  have "restart example_state = example_state" by (simp add: restart_def example_state_def)
  moreover have "nat (iter_max example_config) = Suc 0" by (simp add: example_config_def)
  ultimately show ?thesis by (simp add: example_inner_step)
qed

lemma example_outer_exit: "outer_loop example_config (Suc 0) example_instance example_next = Some (Inr example_next)"
  by (subst outer_loop.simps) (simp add: loop_condition_def example_config_def example_next_def example_state_def)

lemma example_outer_loop: "outer_loop example_config (Suc 0) example_instance example_state = Some (Inr example_next)"
proof -
  have "loop_condition example_config example_state" by (simp add: loop_condition_def example_config_def example_state_def)
  then show ?thesis
    by (subst outer_loop.simps) (simp add: example_inner_loop example_outer_exit)
qed

lemma example_initial_state: "initial_state example_config (10, [60,100,120], [10,20,30]) (sconst 7) = Inr (Suc 0, example_instance, example_state)"
  unfolding example_state_def using example_initial_record by simp

lemma example_best: "best_solution example_next = [1,0,0]" "best_cost example_next = 60"
  by (simp_all add: example_next_def example_state_def)

lemma example_run: "run example_config (10, [60,100,120], [10,20,30]) (sconst 7) = Some (Inr ([1,0,0], 60))"
  unfolding run_def example_initial_state by (simp add: example_outer_loop example_best)


subsection \<open>Claims about the whole run\<close>

lemma example_neighbor_step: "neighbor_step example_instance example_state [1,0,0] = Inr (example_state\<lparr>no_improve_count := 1\<rparr>)"
  by (simp add: neighbor_step_def example_state_def example_cost example_acceptance)

text \<open>
  Claim C1. Whenever \<^verbatim>\<open>run\<close> returns a pair on an instance whose capacity is not negative,
  the returned best solution respects the capacity: the sum of \<open>best[i] * weight[i]\<close> is
  at most the capacity. It is moreover a binary vector with one entry per item.
\<close>

theorem run_best_solution_feasible:
  assumes "read_file file = Inr inst" and "0 \<le> capacity inst"
    and "run cfg file g = Some (Inr (best, bc))"
  shows "(\<Sum>i\<leftarrow>[0..<length best]. best ! i * weight inst ! i) \<le> capacity inst \<and>
         feasible inst best \<and> binary best \<and> length best = amount inst"
proof -
  from assms(3) obtain k inst' s0 s where
    init: "initial_state cfg file g = Inr (k, inst', s0)"
    and loop: "outer_loop cfg k inst' s0 = Some (Inr s)"
    and best: "best = best_solution s"
    by (auto simp: run_def split: sum.splits option.splits prod.splits)
  from initial_state_inv[OF init] assms(1) have "inst' = inst" and "state_inv inst' s0"
    by simp_all
  with outer_loop_inv[OF loop _ refl] have "state_inv inst s" by simp
  with assms(2) best have "feasible inst best" "binary best" "length best = amount inst"
    by (simp_all add: state_inv_def)
  then show ?thesis
    by (simp add: feasible_def solution_weight_def)
qed

text \<open>The worked example satisfies the hypotheses of C1, and its result is feasible.\<close>

theorem run_best_solution_feasible_witness:
  "read_file (10, [60, 100, 120], [10, 20, 30]) = Inr example_instance \<and> 0 \<le> capacity example_instance \<and>
   run example_config (10, [60, 100, 120], [10, 20, 30]) (sconst 7) = Some (Inr ([1, 0, 0], 60)) \<and>
   feasible example_instance [1, 0, 0]"
  using run_best_solution_feasible[OF example_read_file _ example_run] by (simp add: example_read_file example_run example_instance_sel)

text \<open>
  Claim C2. Whenever \<^verbatim>\<open>run\<close> returns a pair, the returned best cost is the cost of the
  returned best solution; and every pass of the loop over the neighbours, the only place
  where the pair is updated, keeps the best cost equal to the cost of the best solution.
\<close>

theorem run_best_cost_consistent:
  "(read_file file = Inr inst \<longrightarrow> run cfg file g = Some (Inr (best, bc)) \<longrightarrow>
      calculate_cost inst best = Inr bc) \<and>
   (calculate_cost inst (best_solution s) = Inr (best_cost s) \<longrightarrow>
      neighbor_step inst s neighbor = Inr s1 \<longrightarrow>
      calculate_cost inst (best_solution s1) = Inr (best_cost s1))"
proof (intro conjI impI)
  assume example_read_file: "read_file file = Inr inst" and run: "run cfg file g = Some (Inr (best, bc))"
  from run obtain k inst' s0 s where
    init: "initial_state cfg file g = Inr (k, inst', s0)"
    and loop: "outer_loop cfg k inst' s0 = Some (Inr s)"
    and best: "best = best_solution s" "bc = best_cost s"
    by (auto simp: run_def split: sum.splits option.splits prod.splits)
  from initial_state_inv[OF init] example_read_file have "inst' = inst" and "state_inv inst' s0"
    by simp_all
  with outer_loop_inv[OF loop _ refl] have "state_inv inst s" by simp
  with best show "calculate_cost inst best = Inr bc"
    by (simp add: state_inv_def)
next
  assume "calculate_cost inst (best_solution s) = Inr (best_cost s)"
    and "neighbor_step inst s neighbor = Inr s1"
  then show "calculate_cost inst (best_solution s1) = Inr (best_cost s1)"
    by (auto simp: neighbor_step_def split: sum.splits if_splits prod.splits)
qed

text \<open>The worked example satisfies the hypotheses of both parts of C2.\<close>

theorem run_best_cost_consistent_witness:
  "read_file (10, [60, 100, 120], [10, 20, 30]) = Inr example_instance \<and>
   run example_config (10, [60, 100, 120], [10, 20, 30]) (sconst 7) = Some (Inr ([1, 0, 0], 60)) \<and>
   calculate_cost example_instance [1, 0, 0] = Inr 60 \<and>
   calculate_cost example_instance (best_solution example_state) = Inr (best_cost example_state) \<and>
   neighbor_step example_instance example_state [1, 0, 0] = Inr (example_state\<lparr>no_improve_count := 1\<rparr>) \<and>
   calculate_cost example_instance (best_solution (example_state\<lparr>no_improve_count := 1\<rparr>)) =
     Inr (best_cost (example_state\<lparr>no_improve_count := 1\<rparr>))"
  using run_best_cost_consistent[of "(10, [60, 100, 120], [10, 20, 30])" example_instance example_config "sconst 7"
      "[1, 0, 0]" 60 example_state "[1, 0, 0]" "example_state\<lparr>no_improve_count := 1\<rparr>"]
  by (simp add: example_read_file example_run example_neighbor_step) (simp add: example_state_def example_cost)

text \<open>
  Claim C7. On an instance with at least one item, a capacity that is not negative and
  one weight per item, the neighbourhood generator applied to a binary solution with one
  entry per item raises no exception and returns exactly \<open>max 1 \<lfloor>0.15 * n\<rfloor>\<close> neighbours,
  each of which respects the capacity, whatever the random draws are.
\<close>

theorem generate_neighbors_count_and_feasible:
  assumes "0 \<le> capacity inst" and "length (weight inst) = amount inst"
    and "1 \<le> amount inst" and "binary sol" and "length sol = amount inst"
  shows "\<exists>neighbors g1.
           generate_neighbors (calculate_number_of_neighbors (amount inst)) inst sol g =
             Inr (neighbors, g1) \<and>
           length neighbors = max 1 (nat \<lfloor>15 / 100 * real (amount inst)\<rfloor>) \<and>
           (\<forall>nb\<in>set neighbors. feasible inst nb)"
proof -
  from generate_neighbors_ok[OF assms(4), of inst] assms(2,3,5) obtain nbs g1 where
    gen: "generate_neighbors (calculate_number_of_neighbors (amount inst)) inst sol g =
            Inr (nbs, g1)"
    by fastforce
  from generate_neighbors_good[OF assms(4) gen] assms(1) show ?thesis
    using gen by (auto simp: calculate_number_of_neighbors_def mult.commute)
qed

text \<open>The worked example satisfies the hypotheses of C7.\<close>

theorem generate_neighbors_count_and_feasible_witness:
  "0 \<le> capacity example_instance \<and> length (weight example_instance) = amount example_instance \<and> 1 \<le> amount example_instance \<and>
   binary [1, 0, 0] \<and> length [1, 0, 0 :: int] = amount example_instance \<and>
   generate_neighbors (calculate_number_of_neighbors (amount example_instance)) example_instance [1, 0, 0] (sconst 7) =
     Inr (([1, 0, 0] # []), sconst 7) \<and>
   length ([1, 0, 0 :: int] # []) = max 1 (nat \<lfloor>15 / 100 * real (amount example_instance)\<rfloor>) \<and>
   feasible example_instance [1, 0, 0]"
  using generate_neighbors_count_and_feasible[of example_instance "[1, 0, 0]" "sconst 7"]
  by (simp add: example_instance_sel binary_def example_neighbors_amount example_neighbor)

subsection \<open>Calls of the acceptance criterion\<close>

lemma outer_reach_inv:
  "outer_reach cfg k inst s0 s \<Longrightarrow> state_inv inst s0 \<Longrightarrow> state_inv inst s"
  by (induction rule: outer_reach.induct)
     (auto dest: inner_loop_inv[OF state_inv_restart])

lemma acceptance_call_inv:
  assumes "acceptance_call cfg k inst s0 s neighbor new_cost" and "state_inv inst s0"
  shows "state_inv inst s \<and> calculate_cost inst neighbor = Inr new_cost"
  using assms(1)
proof cases
  case (call sa m s1 neighbors g1 j)
  from outer_reach_inv[OF call(2) assms(2)] have "state_inv inst sa" .
  from inner_loop_inv[OF state_inv_restart[OF this] call(5)] have s1: "state_inv inst s1" .
  then have b: "binary (solution s1)" and l: "length (solution s1) = amount inst"
    by (simp_all add: state_inv_def)
  from generate_neighbors_good[OF b call(6)] l
  have "\<forall>nb\<in>set (take j neighbors). binary nb \<and> length nb = amount inst \<and>
          (0 \<le> capacity inst \<longrightarrow> feasible inst nb)"
    by (auto dest: in_set_takeD)
  from neighbors_loop_inv[OF _ this call(8)] s1 have "state_inv inst s"
    by (simp add: state_inv_rng)
  with call(1,9) show ?thesis by simp
qed

lemma example_call:
  "acceptance_call example_config (Suc 0) example_instance example_state example_state
     [1, 0, 0] 60"
proof -
  have "acceptance_call example_config (Suc 0) example_instance example_state example_state
          (([1, 0, 0] # []) ! 0) 60"
  proof (rule acceptance_call.call[where m = 0 and s = example_state and ?s1.0 = example_state
          and ?g1.0 = "sconst 7"])
    show "outer_reach example_config (Suc 0) example_instance example_state example_state"
      by (rule outer_start)
    show "loop_condition example_config example_state"
      by (simp add: loop_condition_def example_config_def example_state_def)
    show "0 < nat (iter_max example_config)"
      by (simp add: example_config_def)
    show "inner_loop 0 example_config (Suc 0) example_instance (restart example_state) =
            Inr example_state"
      by (simp add: restart_def example_state_def)
    show "generate_neighbors (Suc 0) example_instance (solution example_state)
            (rng example_state) = Inr (([1, 0, 0] # []), sconst 7)"
      by (simp add: example_state_def example_neighbor)
    show "0 < length ([1, 0, 0 :: int] # [])" by simp
    show "neighbors_loop example_instance (example_state\<lparr>rng := sconst 7\<rparr>)
            (take 0 ([1, 0, 0] # [])) = Inr example_state"
      by (simp add: example_state_def)
    show "calculate_cost example_instance (([1, 0, 0] # []) ! 0) = Inr 60"
      by (simp add: example_cost)
  qed
  then show ?thesis by simp
qed

text \<open>
  Claim C10. At every strictly positive temperature a candidate of equal cost is accepted
  whatever the uniform draw is; and at every call of \<^verbatim>\<open>check_acceptance\<close> that a run makes
  with a candidate of the working cost, the candidate becomes the working solution and
  the no-improvement counter grows by one.
\<close>

theorem equal_cost_always_accepted:
  assumes "0 < t"
  shows "check_acceptance t c c g = Inr (True, stl g) \<and>
         (initial_state cfg file g0 = Inr (k, inst, s0) \<longrightarrow>
          acceptance_call cfg k inst s0 s neighbor new_cost \<longrightarrow>
          temperature s = t \<longrightarrow> new_cost = cost s \<longrightarrow>
          neighbor_step inst s neighbor =
            Inr (s\<lparr>solution := neighbor, cost := cost s,
                    no_improve_count := no_improve_count s + 1, rng := stl (rng s)\<rparr>))"
proof -
  have u: "real (n mod 2 ^ 53) / 2 ^ 53 < 1" for n :: nat
  proof -
    have "n mod 2 ^ 53 < 2 ^ 53" by simp
    then have "real (n mod 2 ^ 53) < 2 ^ 53"
      by (metis of_nat_less_iff of_nat_numeral of_nat_power)
    then show ?thesis by simp
  qed
  have acc: "check_acceptance t c c g = Inr (True, stl g)" for c g
    using assms u[of "shd g"] by (simp add: check_acceptance_def random_random_def)
  have "neighbor_step inst s neighbor =
            Inr (s\<lparr>solution := neighbor, cost := cost s,
                    no_improve_count := no_improve_count s + 1, rng := stl (rng s)\<rparr>)"
    if init: "initial_state cfg file g0 = Inr (k, inst, s0)"
      and call: "acceptance_call cfg k inst s0 s neighbor new_cost"
      and t: "temperature s = t" and eq: "new_cost = cost s"
  proof -
    from initial_state_inv[OF init] have "state_inv inst s0" by simp
    from acceptance_call_inv[OF call this] eq
    have "cost s \<le> best_cost s" "calculate_cost inst neighbor = Inr (cost s)"
      by (simp_all add: state_inv_def)
    with t show ?thesis by (simp add: acc neighbor_step_def)
  qed
  with acc show ?thesis by blast
qed

text \<open>The first call of the worked example satisfies the hypotheses of C10.\<close>

theorem equal_cost_always_accepted_witness:
  "(0::real) < 60 \<and>
   check_acceptance 60 60 60 (sconst 7) = Inr (True, stl (sconst 7)) \<and>
   initial_state example_config (10, [60, 100, 120], [10, 20, 30]) (sconst 7) =
     Inr (Suc 0, example_instance, example_state) \<and>
   acceptance_call example_config (Suc 0) example_instance example_state example_state
     [1, 0, 0] 60 \<and>
   temperature example_state = 60 \<and> 60 = cost example_state \<and>
   neighbor_step example_instance example_state [1, 0, 0] =
     Inr (example_state\<lparr>solution := [1, 0, 0], cost := cost example_state,
            no_improve_count := no_improve_count example_state + 1,
            rng := stl (rng example_state)\<rparr>)"
proof -
  have s: "temperature example_state = 60" "60 = cost example_state"
    by (simp_all add: example_state_def)
  from equal_cost_always_accepted[where t = 60 and c = 60 and g = "sconst 7"
      and s = example_state and inst = example_instance and neighbor = "[1, 0, 0]"
      and cfg = example_config and ?file = "(10, [60, 100, 120], [10, 20, 30])"
      and ?g0.0 = "sconst 7" and k = "Suc 0" and ?s0.0 = example_state and new_cost = 60]
    example_initial_state example_call s
  show ?thesis by simp
qed

subsection \<open>Configurations and instances outside the specified ranges\<close>

lemma negative_rate_cooling: "cooling (- 1) 60 = Inr (60 / (1 + - 1 * sqrt 60))"
proof -
  have "sqrt 60 \<noteq> 1" by simp
  then have "1 + - 1 * sqrt 60 \<noteq> 0" by simp
  then show ?thesis by (simp add: cooling_def)
qed

lemma negative_rate_initial_state:
  "initial_state negative_rate_config (10, [60, 100, 120], [10, 20, 30]) (sconst 7) =
     Inr (Suc 0, example_instance, example_state)"
  using example_initial_state by (simp add: initial_state_def)

lemma negative_rate_inner_loop:
  "inner_loop (nat (iter_max negative_rate_config)) negative_rate_config (Suc 0) example_instance
     (restart example_state) = Inr negative_rate_next"
proof -
  have "restart example_state = example_state" by (simp add: restart_def example_state_def)
  moreover have "nat (iter_max negative_rate_config) = Suc 0"
    by (simp add: negative_rate_config_def)
  moreover have "inner_step negative_rate_config (Suc 0) example_instance example_state =
      Inr negative_rate_next"
    using negative_rate_cooling
    by (simp add: inner_step_def example_state_def negative_rate_next_def example_neighbor
        neighbor_step_def example_cost example_acceptance negative_rate_config_def)
  ultimately show ?thesis by simp
qed

lemma negative_rate_outer_loop:
  "outer_loop negative_rate_config (Suc 0) example_instance example_state =
     Some (Inr negative_rate_next)"
proof -
  have "loop_condition negative_rate_config example_state"
    by (simp add: loop_condition_def negative_rate_config_def example_state_def)
  moreover have "\<not> loop_condition negative_rate_config negative_rate_next"
    by (simp add: loop_condition_def negative_rate_config_def negative_rate_next_def)
  then have "outer_loop negative_rate_config (Suc 0) example_instance negative_rate_next =
      Some (Inr negative_rate_next)"
    by (subst outer_loop.simps) simp
  ultimately show ?thesis
    by (subst outer_loop.simps) (simp add: negative_rate_inner_loop)
qed

text \<open>
  Claim C4 fails as stated: the constructor accepts the cooling rate \<open>-1\<close>, and \<^verbatim>\<open>run\<close> with
  that configuration raises nothing and returns a solution.
\<close>

theorem negative_cooling_rate_accepted:
  "SimulatedAnnealing_init None (- 1) 1 (1 / 1000) 1 = Inr negative_rate_config \<and>
   cooling_rate negative_rate_config \<le> 0 \<and>
   run negative_rate_config (10, [60, 100, 120], [10, 20, 30]) (sconst 7) =
     Some (Inr ([1, 0, 0], 60))"
proof -
  have "best_solution negative_rate_next = [1, 0, 0]" "best_cost negative_rate_next = 60"
    by (simp_all add: negative_rate_next_def example_state_def)
  then have "run negative_rate_config (10, [60, 100, 120], [10, 20, 30]) (sconst 7) =
     Some (Inr ([1, 0, 0], 60))"
    unfolding run_def negative_rate_initial_state by (simp add: negative_rate_outer_loop)
  then show ?thesis
    by (simp add: SimulatedAnnealing_init_def negative_rate_config_def)
qed

text \<open>
  Claim C4, amended. The constructor never fails and stores every value it is given
  unchanged, positive or not; and what \<^verbatim>\<open>run\<close> does before the loop (the reading of the
  file, the initial solution, the initial temperature) does not depend on the
  configuration.
\<close>

theorem init_stores_configuration_unchecked:
  "SimulatedAnnealing_init name cr im tm nil =
     Inr \<lparr>cooling_rate = cr, iter_max = im, T_min = tm, no_improve_limit = nil\<rparr> \<and>
   initial_state \<lparr>cooling_rate = cr, iter_max = im, T_min = tm, no_improve_limit = nil\<rparr> file g =
     initial_state cfg file g"
  by (simp add: SimulatedAnnealing_init_def initial_state_def)

text \<open>
  Claim C5 against the code: on an instance without items the file is read and the initial
  solution is the empty list, but \<^verbatim>\<open>run\<close> then raises ValueError, for every configuration
  and every random source. The computation of the initial temperature asks for one
  neighbour, and \<^verbatim>\<open>random.randint(0, -1)\<close> has an empty range.
\<close>

theorem run_empty_instance_raises:
  "read_file (c, [], []) = Inr \<lparr>capacity = c, amount = 0, profit = [], weight = []\<rparr> \<and>
   generate_initial_solution \<lparr>capacity = c, amount = 0, profit = [], weight = []\<rparr> = Inr [] \<and>
   run cfg (c, [], []) g = Some (Inl ValueError)"
  by (simp add: run_def initial_state_def read_file_def generate_initial_solution_def
      calculate_number_of_neighbors_def initial_temperature_def generate_neighbor_def
      random_randint_def)

text \<open>
  Claim C6 against the code: with capacity 10 and one item of profit 5 and weight 0, a valid
  instance, the solution constructor raises ZeroDivisionError when it computes the sort
  key, and so does \<^verbatim>\<open>run\<close>.
\<close>

theorem initial_solution_zero_weight_raises:
  "read_file (10, [5], [0]) = Inr \<lparr>capacity = 10, amount = 1, profit = [5], weight = [0]\<rparr> \<and>
   generate_initial_solution \<lparr>capacity = 10, amount = 1, profit = [5], weight = [0]\<rparr> =
     Inl ZeroDivisionError \<and>
   run cfg (10, [5], [0]) g = Some (Inl ZeroDivisionError)"
  by (simp add: run_def initial_state_def read_file_def generate_initial_solution_def ratio_def)

section \<open>The cooling schedule in double precision\<close>

subsection \<open>Rounding\<close>

lemma pow2_pos [simp]: "0 < pow2 e"
  by (simp add: pow2_def)

lemma pow2_neq_0 [simp]: "pow2 e \<noteq> 0"
  using pow2_pos[of e] by linarith

lemma pow2_nonneg [simp]: "0 \<le> pow2 e"
  by (simp add: pow2_def)





lemma pow2_0 [simp]: "pow2 0 = 1"
  by (simp add: pow2_def)




lemma round_half_even_of_int [simp]: "round_half_even (of_int n) = n"
  by (simp add: round_half_even_def)

lemma round_half_even_0 [simp]: "round_half_even 0 = 0"
  using round_half_even_of_int[of 0] by simp



lemma round_half_even_above:
  "1 / 2 < y - of_int \<lfloor>y\<rfloor> \<Longrightarrow> round_half_even y = \<lfloor>y\<rfloor> + 1"
  by (simp add: round_half_even_def Let_def)











lemma ulp_pos [simp]: "0 < ulp x"
  by (simp add: ulp_def)

lemma ulp_nonneg [simp]: "0 \<le> ulp x"
  by (simp add: ulp_def)

lemma ulp_neq_0 [simp]: "ulp x \<noteq> 0"
  using ulp_pos[of x] by linarith

lemma round_grid_0 [simp]: "round_grid 0 = 0"
  by (simp add: round_grid_def)


















subsection \<open>Cooling steps\<close>
















end
